theory Spec2Isabelle
  imports Main
begin

section \<open>Data model\<close>

text \<open>
  The backend is an Express application over Mongoose models. Three models matter for
  voting and acceptance: \<open>Answer\<close>, \<open>Question\<close> and \<open>Notification\<close>.

  An \<open>ObjectId\<close> is compared through \<open>toString()\<close> everywhere in the routes, so an
  identifier is modelled by that string. The numeric field \<open>votes\<close> is a JavaScript
  number that only ever changes by 1 or 2; it is modelled as an unbounded integer
  (exact below \<open>2^53\<close>). The schema's \<open>enum: ['up', 'down']\<close> is a datatype.
  Fields that no vote, accept, unaccept or delete handler reads or writes (content,
  title, tags, views, timestamps) are left out of the records.
\<close>

type_synonym object_id = string

datatype vote_type = Up | Down

record vote_entry =
  user :: object_id
  vote :: vote_type
  createdAt :: nat

text \<open>The fields that \<open>answerSchema\<close> and \<open>questionSchema\<close> have in common.\<close>

record votable =
  votes :: int
  isDeleted :: bool
  voteHistory :: "vote_entry list"

record answer = votable +
  questionId :: object_id
  answeredBy :: object_id
  isAccepted :: bool

record question = votable +
  askedBy :: object_id
  acceptedAnswer :: "object_id option"

text \<open>The data handed to \<open>Notification.createNotification\<close>.\<close>

record notification =
  recipientId :: object_id
  senderId :: object_id
  type_n :: string
  title :: string
  message :: string
  link :: string
  questionId_n :: "object_id option"
  answerId_n :: "object_id option"

text \<open>
  The state of the server: the three collections, and the lines written with
  \<open>console.error\<close>.
\<close>

record app_state =
  answers :: "object_id \<rightharpoonup> answer"
  questions :: "object_id \<rightharpoonup> question"
  notifications :: "notification list"
  console :: "string list"

text \<open>\<open>req.user\<close>, as the \<open>auth\<close> middleware leaves it.\<close>

record req_user =
  user_id :: object_id
  username :: string
  role :: string

text \<open>What a handler sends: the status, the message, and the rest of the JSON body.\<close>

datatype payload = NoPayload | VotesPayload int | AnswerPayload answer

datatype response = Response nat string payload

section \<open>The vote method of both schemas\<close>

text \<open>
  \<open>Array.prototype.findIndex\<close>: the index of the first element that satisfies the
  predicate; JavaScript's \<open>-1\<close> is \<open>None\<close>.
\<close>

fun findIndex :: "('a \<Rightarrow> bool) \<Rightarrow> 'a list \<Rightarrow> nat option" where
  "findIndex P [] = None"
| "findIndex P (x # xs) = (if P x then Some 0 else map_option Suc (findIndex P xs))"

text \<open>\<open>xs.splice(i, 1)\<close>: the array without its element at index \<open>i\<close>.\<close>

definition splice1 :: "nat \<Rightarrow> 'a list \<Rightarrow> 'a list" where
  "splice1 i xs = take i xs @ drop (Suc i) xs"

text \<open>
  \<open>questionSchema.methods.vote\<close> and \<open>answerSchema.methods.vote\<close> have the same body;
  it is written once, over any record that extends \<open>votable\<close>. This is the change of the
  document in memory; the closing \<open>this.save()\<close> is in \<open>answer_vote\<close> and
  \<open>question_vote\<close> below. \<open>now\<close> stands for \<open>new Date()\<close>.
\<close>

definition vote_method ::
  "'a votable_scheme \<Rightarrow> object_id \<Rightarrow> vote_type \<Rightarrow> nat \<Rightarrow> 'a votable_scheme" where
  "vote_method this userId voteType now =
     (case findIndex (\<lambda>v. user v = userId) (voteHistory this) of
        Some existingVoteIndex \<Rightarrow>
          (let existingVote = voteHistory this ! existingVoteIndex in
           if vote existingVote = voteType then
             this\<lparr>votes := votes this - (if vote existingVote = Up then 1 else - 1),
                  voteHistory := splice1 existingVoteIndex (voteHistory this)\<rparr>
           else
             this\<lparr>votes := votes this + (if voteType = Up then 2 else - 2),
                  voteHistory := (voteHistory this)
                    [existingVoteIndex := existingVote\<lparr>vote := voteType, createdAt := now\<rparr>]\<rparr>)
      | None \<Rightarrow>
          this\<lparr>votes := votes this + (if voteType = Up then 1 else - 1),
               voteHistory := voteHistory this @
                 [\<lparr>user = userId, vote = voteType, createdAt = now\<rparr>]\<rparr>)"

text \<open>\<open>getUserVote\<close>: \<open>Array.prototype.find\<close> returns the first match.\<close>

definition getUserVote :: "'a votable_scheme \<Rightarrow> object_id \<Rightarrow> vote_type option" where
  "getUserVote this userId = map_option vote (find (\<lambda>v. user v = userId) (voteHistory this))"

text \<open>The contribution of a ledger entry to the score, and the score a ledger stands for.\<close>

definition direction :: "vote_type \<Rightarrow> int" where
  "direction d = (if d = Up then 1 else - 1)"

definition ledger_sum :: "vote_entry list \<Rightarrow> int" where
  "ledger_sum vh = sum_list (map (\<lambda>e. direction (vote e)) vh)"

definition opposite :: "vote_type \<Rightarrow> vote_type" where
  "opposite d = (if d = Up then Down else Up)"

text \<open>A run of votes on one document: each element is the voter, the direction, the time.\<close>

definition cast_votes ::
  "'a votable_scheme \<Rightarrow> (object_id \<times> vote_type \<times> nat) list \<Rightarrow> 'a votable_scheme" where
  "cast_votes this calls = foldl (\<lambda>doc (u, d, t). vote_method doc u d t) this calls"

section \<open>Documents and the collections\<close>

text \<open>
  \<open>Model.findById\<close> returns a fresh copy of the stored document: two calls with the same
  id give two independent objects. \<open>doc.save()\<close> of a document that was loaded from
  the collection sends an update of the paths that were modified: Mongoose marks a path
  as modified when an assignment changes its value, and an assignment of the value the
  path already has marks nothing. So \<open>save\<close> is a function of the document as it was
  loaded and as it is now: a field whose value differs is written, the others keep
  what the collection holds. Every handler below saves a document it has just loaded,
  so the stored document exists; the writes themselves are taken to succeed.
\<close>

definition modified :: "'a \<Rightarrow> 'a \<Rightarrow> 'a \<Rightarrow> 'a" where
  "modified loaded current stored = (if current = loaded then stored else current)"

definition save_answer :: "app_state \<Rightarrow> object_id \<Rightarrow> answer \<Rightarrow> answer \<Rightarrow> app_state" where
  "save_answer s i loaded this =
     (case answers s i of
        None \<Rightarrow> s
      | Some stored \<Rightarrow>
          s\<lparr>answers := (answers s)(i \<mapsto> stored
              \<lparr>votes := modified (votes loaded) (votes this) (votes stored),
               isDeleted := modified (isDeleted loaded) (isDeleted this) (isDeleted stored),
               voteHistory :=
                 modified (voteHistory loaded) (voteHistory this) (voteHistory stored),
               isAccepted :=
                 modified (isAccepted loaded) (isAccepted this) (isAccepted stored)\<rparr>)\<rparr>)"

definition save_question ::
  "app_state \<Rightarrow> object_id \<Rightarrow> question \<Rightarrow> question \<Rightarrow> app_state" where
  "save_question s i loaded this =
     (case questions s i of
        None \<Rightarrow> s
      | Some stored \<Rightarrow>
          s\<lparr>questions := (questions s)(i \<mapsto> stored
              \<lparr>votes := modified (votes loaded) (votes this) (votes stored),
               isDeleted := modified (isDeleted loaded) (isDeleted this) (isDeleted stored),
               voteHistory :=
                 modified (voteHistory loaded) (voteHistory this) (voteHistory stored),
               acceptedAnswer :=
                 modified (acceptedAnswer loaded) (acceptedAnswer this)
                   (acceptedAnswer stored)\<rparr>)\<rparr>)"

text \<open>
  The schema methods that end in \<open>return this.save()\<close>. Each takes the document as the
  handler holds it (with the id it was loaded under) and returns the new state together
  with the document in memory, which the handler goes on to use.
\<close>

definition answer_vote ::
  "app_state \<Rightarrow> object_id \<Rightarrow> answer \<Rightarrow> object_id \<Rightarrow> vote_type \<Rightarrow> nat
     \<Rightarrow> app_state \<times> answer" where
  "answer_vote s i this userId voteType now =
     (let this' = vote_method this userId voteType now
      in (save_answer s i this this', this'))"

definition question_vote ::
  "app_state \<Rightarrow> object_id \<Rightarrow> question \<Rightarrow> object_id \<Rightarrow> vote_type \<Rightarrow> nat
     \<Rightarrow> app_state \<times> question" where
  "question_vote s i this userId voteType now =
     (let this' = vote_method this userId voteType now
      in (save_question s i this this', this'))"

definition accept :: "app_state \<Rightarrow> object_id \<Rightarrow> answer \<Rightarrow> app_state \<times> answer" where
  "accept s i this =
     (let this' = this\<lparr>isAccepted := True\<rparr> in (save_answer s i this this', this'))"

definition unaccept :: "app_state \<Rightarrow> object_id \<Rightarrow> answer \<Rightarrow> app_state \<times> answer" where
  "unaccept s i this =
     (let this' = this\<lparr>isAccepted := False\<rparr> in (save_answer s i this this', this'))"

section \<open>NotificationService\<close>

text \<open>
  \<open>Notification.create\<close> is the only call that can reject here. Whether it does is the
  argument \<open>fails\<close>. The first component of the result tells whether the call threw.
\<close>

definition createNotification :: "app_state \<Rightarrow> notification \<Rightarrow> bool \<Rightarrow> bool \<times> app_state" where
  "createNotification s data fails =
     (if fails then (True, s\<lparr>console := console s @ [''Error creating notification:'']\<rparr>)
      else (False, s\<lparr>notifications := notifications s @ [data]\<rparr>))"

definition notifyAnswerAccepted ::
  "app_state \<Rightarrow> object_id \<Rightarrow> object_id \<Rightarrow> object_id \<Rightarrow> string \<Rightarrow> bool
     \<Rightarrow> bool \<times> app_state" where
  "notifyAnswerAccepted s answerId questionId' answerAuthorId questionOwnerName fails =
     createNotification s
       \<lparr>recipientId = answerAuthorId,
        senderId = answerAuthorId,
        type_n = ''accept'',
        title = ''Answer Accepted'',
        message = questionOwnerName @ '' accepted your answer'',
        link = ''/question/'' @ questionId' @ ''#answer-'' @ answerId,
        questionId_n = Some questionId',
        answerId_n = Some answerId\<rparr> fails"

datatype item_type = QuestionItem | AnswerItem

definition item_name :: "item_type \<Rightarrow> string" where
  "item_name t = (case t of QuestionItem \<Rightarrow> ''question'' | AnswerItem \<Rightarrow> ''answer'')"

definition notifyVoteReceived ::
  "app_state \<Rightarrow> object_id \<Rightarrow> item_type \<Rightarrow> object_id \<Rightarrow> object_id \<Rightarrow> string \<Rightarrow> bool \<Rightarrow> bool
     \<Rightarrow> bool \<times> app_state" where
  "notifyVoteReceived s itemId itemType voterId itemOwnerId voterName isUpvote fails =
     (if voterId = itemOwnerId then (False, s)
      else
        createNotification s
          \<lparr>recipientId = itemOwnerId,
           senderId = voterId,
           type_n = ''vote'',
           title = ''Vote Received'',
           message = voterName @ '' '' @ (if isUpvote then ''upvoted'' else ''downvoted'')
                       @ '' your '' @ item_name itemType,
           link = (if itemType = QuestionItem then ''/question/'' @ itemId
                   else ''/question/'' @ itemId @ ''#answer-'' @ itemId),
           questionId_n = (if itemType = QuestionItem then Some itemId else None),
           answerId_n = (if itemType = AnswerItem then Some itemId else None)\<rparr> fails)"

text \<open>
  The handlers' \<open>try { await NotificationService... } catch (notifError) { console.error(...) }\<close>:
  a rejection is logged and goes no further.
\<close>

definition swallow :: "bool \<times> app_state \<Rightarrow> app_state" where
  "swallow r = (if fst r then (snd r)\<lparr>console := console (snd r) @ [''Notification error:'']\<rparr>
                else snd r)"

section \<open>The handlers\<close>

text \<open>
  Each handler takes the state, \<open>req.user\<close>, \<open>req.params.id\<close> and what else it reads,
  and returns the response with the new state. The validator
  \<open>body('vote').isIn(['up', 'down'])\<close> is \<open>parse_vote\<close>; the array of validation errors
  in the 400 body is not modelled. The outer \<open>catch\<close> of a handler (status 500) is
  reached only when a database call rejects; apart from \<open>Notification.create\<close>, whose
  rejection the handlers catch on their own, database calls are taken to succeed, so
  that branch does not appear.
\<close>

definition parse_vote :: "string \<Rightarrow> vote_type option" where
  "parse_vote v = (if v = ''up'' then Some Up else if v = ''down'' then Some Down else None)"

text \<open>\<open>POST /api/answers/:id/vote\<close>\<close>

definition vote_answer_route ::
  "app_state \<Rightarrow> req_user \<Rightarrow> object_id \<Rightarrow> string \<Rightarrow> nat \<Rightarrow> bool \<Rightarrow> response \<times> app_state" where
  "vote_answer_route s u i bodyVote now fails =
     (case parse_vote bodyVote of
        None \<Rightarrow> (Response 400 ''Validation failed'' NoPayload, s)
      | Some voteType \<Rightarrow>
     (case answers s i of
        None \<Rightarrow> (Response 404 ''Answer not found'' NoPayload, s)
      | Some answer \<Rightarrow>
          if isDeleted answer then (Response 404 ''Answer not found'' NoPayload, s)
          else if answeredBy answer = user_id u
            then (Response 400 ''Cannot vote on your own answer'' NoPayload, s)
          else
            (let (s1, answer') = answer_vote s i answer (user_id u) voteType now;
                 s2 = swallow (notifyVoteReceived s1 i AnswerItem (user_id u)
                        (answeredBy answer') (username u) (voteType = Up) fails)
             in (Response 200 ''Vote recorded successfully'' (VotesPayload (votes answer')),
                 s2))))"

text \<open>\<open>POST /api/questions/:id/vote\<close>\<close>

definition vote_question_route ::
  "app_state \<Rightarrow> req_user \<Rightarrow> object_id \<Rightarrow> string \<Rightarrow> nat \<Rightarrow> bool \<Rightarrow> response \<times> app_state" where
  "vote_question_route s u i bodyVote now fails =
     (case parse_vote bodyVote of
        None \<Rightarrow> (Response 400 ''Validation failed'' NoPayload, s)
      | Some voteType \<Rightarrow>
     (case questions s i of
        None \<Rightarrow> (Response 404 ''Question not found'' NoPayload, s)
      | Some question \<Rightarrow>
          if isDeleted question then (Response 404 ''Question not found'' NoPayload, s)
          else if askedBy question = user_id u
            then (Response 400 ''Cannot vote on your own question'' NoPayload, s)
          else
            (let (s1, question') = question_vote s i question (user_id u) voteType now;
                 s2 = swallow (notifyVoteReceived s1 i QuestionItem (user_id u)
                        (askedBy question') (username u) (voteType = Up) fails)
             in (Response 200 ''Vote recorded successfully'' (VotesPayload (votes question')),
                 s2))))"

text \<open>\<open>PATCH /api/answers/:id/accept\<close>\<close>

definition accept_route ::
  "app_state \<Rightarrow> req_user \<Rightarrow> object_id \<Rightarrow> bool \<Rightarrow> response \<times> app_state" where
  "accept_route s u i fails =
     (case answers s i of
        None \<Rightarrow> (Response 404 ''Answer not found'' NoPayload, s)
      | Some answer \<Rightarrow>
          if isDeleted answer then (Response 404 ''Answer not found'' NoPayload, s)
          else
     (case questions s (questionId answer) of
        None \<Rightarrow> (Response 404 ''Question not found'' NoPayload, s)
      | Some question \<Rightarrow>
          if isDeleted question then (Response 404 ''Question not found'' NoPayload, s)
          else if askedBy question \<noteq> user_id u
            then (Response 403 ''Only the question owner can accept answers'' NoPayload, s)
          else
            (let s1 = (case acceptedAnswer question of
                         None \<Rightarrow> s
                       | Some previousId \<Rightarrow>
                           (case answers s previousId of
                              None \<Rightarrow> s
                            | Some previousAnswer \<Rightarrow>
                                fst (unaccept s previousId previousAnswer)));
                 (s2, answer') = accept s1 i answer;
                 question' = question\<lparr>acceptedAnswer := Some i\<rparr>;
                 s3 = save_question s2 (questionId answer) question question';
                 s4 = swallow (notifyAnswerAccepted s3 i (questionId answer)
                        (answeredBy answer') (username u) fails)
             in (Response 200 ''Answer accepted successfully'' (AnswerPayload answer'), s4))))"

text \<open>\<open>PATCH /api/answers/:id/unaccept\<close>\<close>

definition unaccept_route ::
  "app_state \<Rightarrow> req_user \<Rightarrow> object_id \<Rightarrow> response \<times> app_state" where
  "unaccept_route s u i =
     (case answers s i of
        None \<Rightarrow> (Response 404 ''Answer not found'' NoPayload, s)
      | Some answer \<Rightarrow>
          if isDeleted answer then (Response 404 ''Answer not found'' NoPayload, s)
          else
     (case questions s (questionId answer) of
        None \<Rightarrow> (Response 404 ''Question not found'' NoPayload, s)
      | Some question \<Rightarrow>
          if isDeleted question then (Response 404 ''Question not found'' NoPayload, s)
          else if askedBy question \<noteq> user_id u
            then (Response 403 ''Only the question owner can unaccept answers'' NoPayload, s)
          else if \<not> isAccepted answer
            then (Response 400 ''This answer is not currently accepted'' NoPayload, s)
          else
            (let (s1, answer') = unaccept s i answer;
                 question' = question\<lparr>acceptedAnswer := None\<rparr>;
                 s2 = save_question s1 (questionId answer) question question'
             in (Response 200 ''Answer unaccepted successfully'' (AnswerPayload answer'), s2))))"

text \<open>\<open>DELETE /api/answers/:id\<close>\<close>

definition delete_answer_route ::
  "app_state \<Rightarrow> req_user \<Rightarrow> object_id \<Rightarrow> response \<times> app_state" where
  "delete_answer_route s u i =
     (case answers s i of
        None \<Rightarrow> (Response 404 ''Answer not found'' NoPayload, s)
      | Some answer \<Rightarrow>
          if isDeleted answer then (Response 404 ''Answer not found'' NoPayload, s)
          else if answeredBy answer \<noteq> user_id u \<and> role u \<noteq> ''admin''
            then (Response 403 ''Not authorized to delete this answer'' NoPayload, s)
          else if isAccepted answer
            then (Response 400 ''Cannot delete an accepted answer'' NoPayload, s)
          else
            (let answer' = answer\<lparr>isDeleted := True\<rparr>;
                 s1 = save_answer s i answer answer'
             in (Response 200 ''Answer deleted successfully'' NoPayload, s1)))"

section \<open>Sequences of accept and unaccept requests\<close>

datatype acceptance_op =
  Accept req_user object_id bool
| Unaccept req_user object_id

fun acceptance_step :: "app_state \<Rightarrow> acceptance_op \<Rightarrow> app_state" where
  "acceptance_step s (Accept u i fails) = snd (accept_route s u i fails)"
| "acceptance_step s (Unaccept u i) = snd (unaccept_route s u i)"

definition acceptance_run :: "app_state \<Rightarrow> acceptance_op list \<Rightarrow> app_state" where
  "acceptance_run s ops = foldl acceptance_step s ops"

text \<open>
  The two halves of the single-accepted-answer invariant. \<open>flag_has_pointer\<close>: an answer
  whose flag is set is the one its question points to (so a question has at most one
  such answer). \<open>pointer_has_flag\<close>: the answer a question points to is one of its
  answers and has the flag set.
\<close>

definition flag_has_pointer :: "app_state \<Rightarrow> bool" where
  "flag_has_pointer s =
     (\<forall>i a. answers s i = Some a \<and> isAccepted a \<longrightarrow>
        (\<exists>q. questions s (questionId a) = Some q \<and> acceptedAnswer q = Some i))"

definition pointer_has_flag :: "app_state \<Rightarrow> bool" where
  "pointer_has_flag s =
     (\<forall>qi q i. questions s qi = Some q \<and> acceptedAnswer q = Some i \<longrightarrow>
        (\<exists>a. answers s i = Some a \<and> questionId a = qi \<and> isAccepted a))"

text \<open>
  What a request that passes every check of the accept handler leaves in the answers
  collection, written out by cases on the question's pointer (\<open>accept_route_answers\<close>
  below proves that the handler computes this).
\<close>

definition accepted_answers ::
  "app_state \<Rightarrow> object_id \<Rightarrow> answer \<Rightarrow> question \<Rightarrow> (object_id \<rightharpoonup> answer)" where
  "accepted_answers s i ans q =
     (if acceptedAnswer q = Some i
        then (answers s)(i \<mapsto> ans\<lparr>isAccepted := \<not> isAccepted ans\<rparr>)
      else case acceptedAnswer q of
        None \<Rightarrow> (answers s)(i \<mapsto> ans\<lparr>isAccepted := True\<rparr>)
      | Some p \<Rightarrow>
          (case answers s p of
             None \<Rightarrow> (answers s)(i \<mapsto> ans\<lparr>isAccepted := True\<rparr>)
           | Some pa \<Rightarrow>
               (answers s)(p \<mapsto> pa\<lparr>isAccepted := False\<rparr>, i \<mapsto> ans\<lparr>isAccepted := True\<rparr>)))"

section \<open>The ledger invariant\<close>

text \<open>No voter appears twice in the ledger, and the cached score is the ledger's sum.\<close>

definition ledger_ok :: "'a votable_scheme \<Rightarrow> bool" where
  "ledger_ok this =
     (distinct (map user (voteHistory this)) \<and> votes this = ledger_sum (voteHistory this))"

section \<open>Example states\<close>

text \<open>
  One question \<open>q1\<close> asked by \<open>u1\<close>, with the answers \<open>a1\<close> (by \<open>u2\<close>) and \<open>b1\<close>
  (by \<open>u3\<close>): first with nothing accepted, then with \<open>a1\<close> accepted.
\<close>

definition alice :: req_user where
  "alice = \<lparr>user_id = ''u1'', username = ''alice'', role = ''user''\<rparr>"

definition bob :: req_user where
  "bob = \<lparr>user_id = ''u2'', username = ''bob'', role = ''user''\<rparr>"

definition carol :: req_user where
  "carol = \<lparr>user_id = ''u3'', username = ''carol'', role = ''user''\<rparr>"

definition new_answer :: "object_id \<Rightarrow> answer" where
  "new_answer author =
     \<lparr>votes = 0, isDeleted = False, voteHistory = [],
      questionId = ''q1'', answeredBy = author, isAccepted = False\<rparr>"

definition new_question :: question where
  "new_question =
     \<lparr>votes = 0, isDeleted = False, voteHistory = [],
      askedBy = ''u1'', acceptedAnswer = None\<rparr>"

definition initial_state :: app_state where
  "initial_state =
     \<lparr>answers = [''a1'' \<mapsto> new_answer ''u2'', ''b1'' \<mapsto> new_answer ''u3''],
      questions = [''q1'' \<mapsto> new_question],
      notifications = [], console = []\<rparr>"

definition accepted_state :: app_state where
  "accepted_state =
     \<lparr>answers = [''a1'' \<mapsto> (new_answer ''u2'')\<lparr>isAccepted := True\<rparr>,
                 ''b1'' \<mapsto> new_answer ''u3''],
      questions = [''q1'' \<mapsto> new_question\<lparr>acceptedAnswer := Some ''a1''\<rparr>],
      notifications = [], console = []\<rparr>"

section \<open>Facts about the list operations\<close>

lemma findIndex_None: "findIndex P xs = None \<longleftrightarrow> (\<forall>x\<in>set xs. \<not> P x)"
  by (induction xs) auto

lemma findIndex_Some:
  "findIndex P xs = Some i \<Longrightarrow> i < length xs \<and> P (xs ! i) \<and> (\<forall>j<i. \<not> P (xs ! j))"
proof (induction xs arbitrary: i)
  case Nil
  then show ?case by simp
next
  case (Cons x xs)
  show ?case
  proof (cases "P x")
    case True
    with Cons.prems show ?thesis by simp
  next
    case False
    with Cons.prems obtain k where k: "findIndex P xs = Some k" "i = Suc k"
      by auto
    from Cons.IH[OF k(1)] False k(2) show ?thesis
      by (auto simp: less_Suc_eq_0_disj)
  qed
qed

lemma findIndex_append_new:
  "\<forall>x\<in>set xs. \<not> P x \<Longrightarrow> P y \<Longrightarrow> findIndex P (xs @ [y]) = Some (length xs)"
  by (induction xs) auto

lemma find_findIndex:
  "find P xs = (case findIndex P xs of None \<Rightarrow> None | Some i \<Rightarrow> Some (xs ! i))"
  by (induction xs) (auto split: option.splits)

lemma find_update_other:
  "i < length xs \<Longrightarrow> \<not> P (xs ! i) \<Longrightarrow> \<not> P y \<Longrightarrow> find P (xs[i := y]) = find P xs"
proof (induction xs arbitrary: i)
  case Nil
  then show ?case by simp
next
  case (Cons x xs)
  then show ?case by (cases i) auto
qed

lemma find_update_first:
  "findIndex P xs = Some i \<Longrightarrow> P y \<Longrightarrow> find P (xs[i := y]) = Some y"
proof (induction xs arbitrary: i)
  case Nil
  then show ?case by simp
next
  case (Cons x xs)
  then show ?case by (cases "P x") auto
qed

lemma splice1_last: "splice1 (length xs) (xs @ [y]) = xs"
  by (simp add: splice1_def)

lemma map_splice1: "map f (splice1 i xs) = splice1 i (map f xs)"
  by (simp add: splice1_def take_map drop_map)

lemma distinct_splice1:
  assumes "distinct xs"
  shows "distinct (splice1 i xs)"
proof (cases "i < length xs")
  case True
  then have "xs = take i xs @ xs ! i # drop (Suc i) xs"
    by (rule id_take_nth_drop)
  with assms have "distinct (take i xs @ xs ! i # drop (Suc i) xs)" by simp
  then show ?thesis by (simp add: splice1_def)
next
  case False
  with assms show ?thesis by (simp add: splice1_def)
qed

lemma sum_list_splice1:
  fixes f :: "'a \<Rightarrow> int"
  assumes "i < length xs"
  shows "sum_list (map f (splice1 i xs)) = sum_list (map f xs) - f (xs ! i)"
proof -
  have "xs = take i xs @ xs ! i # drop (Suc i) xs"
    using assms by (rule id_take_nth_drop)
  then have "sum_list (map f xs) = sum_list (map f (take i xs @ xs ! i # drop (Suc i) xs))"
    by simp
  then show ?thesis by (simp add: splice1_def)
qed

lemma sum_list_map_update:
  fixes f :: "'a \<Rightarrow> int"
  assumes "i < length xs"
  shows "sum_list (map f (xs[i := y])) = sum_list (map f xs) - f (xs ! i) + f y"
proof -
  have a: "xs = take i xs @ xs ! i # drop (Suc i) xs"
    using assms by (rule id_take_nth_drop)
  have b: "xs[i := y] = take i xs @ y # drop (Suc i) xs"
    using assms by (rule upd_conv_take_nth_drop)
  have "sum_list (map f xs) = sum_list (map f (take i xs @ xs ! i # drop (Suc i) xs))"
    using a by simp
  then show ?thesis unfolding b by simp
qed

section \<open>The vote ledger\<close>

lemma vote_method_ledger_ok:
  assumes "ledger_ok this"
  shows "ledger_ok (vote_method this u d t)"
proof (cases "findIndex (\<lambda>v. user v = u) (voteHistory this)")
  case None
  then have "u \<notin> set (map user (voteHistory this))"
    by (auto simp: findIndex_None)
  with assms None show ?thesis
    by (simp add: vote_method_def ledger_ok_def ledger_sum_def direction_def)
next
  case (Some i)
  let ?vh = "voteHistory this"
  from findIndex_Some[OF Some] have i: "i < length ?vh" by simp
  show ?thesis
  proof (cases "vote (?vh ! i) = d")
    case True
    have s: "ledger_sum (splice1 i ?vh) = ledger_sum ?vh - direction (vote (?vh ! i))"
      unfolding ledger_sum_def using i by (rule sum_list_splice1)
    have "distinct (splice1 i (map user ?vh))"
      using assms by (simp add: ledger_ok_def distinct_splice1)
    then have dd: "distinct (map user (splice1 i ?vh))"
      by (simp add: map_splice1)
    from True Some s dd assms show ?thesis
      by (simp add: vote_method_def ledger_ok_def direction_def Let_def)
  next
    case False
    let ?e = "(?vh ! i)\<lparr>vote := d, createdAt := t\<rparr>"
    have m: "map user (?vh[i := ?e]) = map user ?vh"
      using i by (simp add: map_update list_update_same_conv)
    have s: "ledger_sum (?vh[i := ?e])
               = ledger_sum ?vh - direction (vote (?vh ! i)) + direction (vote ?e)"
      unfolding ledger_sum_def using i by (rule sum_list_map_update)
    from False have "direction (vote (?vh ! i)) = - direction d"
      by (cases d; cases "vote (?vh ! i)") (simp_all add: direction_def)
    with s have s': "ledger_sum (?vh[i := ?e]) = ledger_sum ?vh + 2 * direction d"
      by simp
    from False Some m s' assms show ?thesis
      by (simp add: vote_method_def ledger_ok_def direction_def Let_def)
  qed
qed

lemma cast_votes_ledger_ok: "ledger_ok this \<Longrightarrow> ledger_ok (cast_votes this calls)"
  unfolding cast_votes_def
  by (induction calls arbitrary: this) (auto simp: vote_method_ledger_ok)

text \<open>
  C2. Start from a document with \<open>votes = 0\<close> and an empty \<open>voteHistory\<close> and apply the
  vote method any number of times, with any voters (repeated or not) and directions.
  In the result no voter has two entries in \<open>voteHistory\<close>, and \<open>votes\<close> equals the sum
  over the entries of +1 for \<open>up\<close> and -1 for \<open>down\<close>. The method is the one of both
  schemas, so this holds for questions and for answers.
\<close>

theorem votes_equal_ledger_sum:
  assumes "votes this = 0" and "voteHistory this = []"
  shows "distinct (map user (voteHistory (cast_votes this calls)))
       \<and> votes (cast_votes this calls) = ledger_sum (voteHistory (cast_votes this calls))"
proof -
  from assms have "ledger_ok this"
    by (simp add: ledger_ok_def ledger_sum_def)
  then have "ledger_ok (cast_votes this calls)"
    by (rule cast_votes_ledger_ok)
  then show ?thesis by (simp add: ledger_ok_def)
qed

theorem votes_equal_ledger_sum_witness:
  "votes new_question = 0 \<and> voteHistory new_question = []
   \<and> distinct (map user (voteHistory
        (cast_votes new_question [(''u2'', Up, 1), (''u3'', Down, 2), (''u2'', Down, 3)])))
   \<and> votes (cast_votes new_question [(''u2'', Up, 1), (''u3'', Down, 2), (''u2'', Down, 3)])
       = ledger_sum (voteHistory
           (cast_votes new_question [(''u2'', Up, 1), (''u3'', Down, 2), (''u2'', Down, 3)]))"
  using votes_equal_ledger_sum
    [of new_question "[(''u2'', Up, 1), (''u3'', Down, 2), (''u2'', Down, 3)]"]
  by (simp add: new_question_def)

text \<open>
  C4, as stated, at a state the claim covers: voter \<open>u2\<close> already holds a \<open>down\<close>
  vote on a document with score -1. Two \<open>up\<close> votes of \<open>u2\<close> in a row first change
  the entry (score 1) and then remove it (score 0): the score does not return to -1.
\<close>

theorem toggle_off_any_state_counterexample:
  "votes (vote_method
       (vote_method
          \<lparr>votes = - 1, isDeleted = False,
           voteHistory = [\<lparr>user = ''u2'', vote = Down, createdAt = 0\<rparr>]\<rparr>
          ''u2'' Up 1)
       ''u2'' Up 2) = 0
   \<and> votes (vote_method
       (vote_method
          \<lparr>votes = - 1, isDeleted = False,
           voteHistory = [\<lparr>user = ''u2'', vote = Down, createdAt = 0\<rparr>]\<rparr>
          ''u2'' Up 1)
       ''u2'' Up 2)
     \<noteq> votes \<lparr>votes = - 1, isDeleted = False,
           voteHistory = [\<lparr>user = ''u2'', vote = Down, createdAt = 0\<rparr>]\<rparr>"
  by (simp add: vote_method_def splice1_def)

text \<open>
  C4, amended. For every document in which voter \<open>v\<close> has no ledger entry, and every
  direction \<open>d\<close>: after the vote method is applied twice in a row with \<open>v\<close> and \<open>d\<close>, the
  score is what it was before the first call, the ledger is what it was, and \<open>v\<close> has no
  entry.
\<close>

theorem toggle_off_fresh_voter:
  assumes "v \<notin> set (map user (voteHistory this))"
  shows "votes (vote_method (vote_method this v d t1) v d t2) = votes this
       \<and> voteHistory (vote_method (vote_method this v d t1) v d t2) = voteHistory this
       \<and> getUserVote (vote_method (vote_method this v d t1) v d t2) v = None"
proof -
  let ?e = "\<lparr>user = v, vote = d, createdAt = t1\<rparr>"
  let ?vh = "voteHistory this"
  from assms have no: "\<forall>x\<in>set ?vh. \<not> user x = v" by auto
  then have n: "findIndex (\<lambda>x. user x = v) ?vh = None"
    by (simp add: findIndex_None)
  have f: "findIndex (\<lambda>x. user x = v) (?vh @ [?e]) = Some (length ?vh)"
    using no by (rule findIndex_append_new) simp
  have g: "find (\<lambda>x. user x = v) ?vh = None"
    using n by (simp add: find_findIndex)
  show ?thesis
    by (simp add: vote_method_def n f g splice1_last getUserVote_def)
qed

theorem toggle_off_fresh_voter_witness:
  "''u3'' \<notin> set (map user [\<lparr>user = ''u2'', vote = Down, createdAt = 0\<rparr>])
   \<and> votes (vote_method (vote_method
        \<lparr>votes = - 1, isDeleted = False,
         voteHistory = [\<lparr>user = ''u2'', vote = Down, createdAt = 0\<rparr>]\<rparr> ''u3'' Up 1)
        ''u3'' Up 2) = - 1
   \<and> getUserVote (vote_method (vote_method
        \<lparr>votes = - 1, isDeleted = False,
         voteHistory = [\<lparr>user = ''u2'', vote = Down, createdAt = 0\<rparr>]\<rparr> ''u3'' Up 1)
        ''u3'' Up 2) ''u3'' = None"
  using toggle_off_fresh_voter
    [of "''u3''" "\<lparr>votes = - 1, isDeleted = False,
         voteHistory = [\<lparr>user = ''u2'', vote = Down, createdAt = 0\<rparr>]\<rparr>" Up 1 2]
  by simp

text \<open>
  C5. If the ledger entry of voter \<open>v\<close> (the one \<open>getUserVote\<close> and the vote method find)
  has the direction opposite to \<open>d\<close>, then the vote method with \<open>v\<close> and \<open>d\<close> changes the
  score by exactly \<open>2 * d\<close> (+2 for \<open>up\<close>, -2 for \<open>down\<close>) and leaves \<open>v\<close> with the
  direction \<open>d\<close>; the voters of the ledger stay the same, in the same order, and every
  other voter keeps their vote.
\<close>

theorem change_vote:
  assumes "getUserVote this v = Some (opposite d)"
  shows "votes (vote_method this v d t) = votes this + 2 * direction d
       \<and> getUserVote (vote_method this v d t) v = Some d
       \<and> map user (voteHistory (vote_method this v d t)) = map user (voteHistory this)
       \<and> (\<forall>u. u \<noteq> v \<longrightarrow> getUserVote (vote_method this v d t) u = getUserVote this u)"
proof -
  let ?vh = "voteHistory this"
  let ?P = "\<lambda>x. user x = v"
  from assms obtain i where i: "findIndex ?P ?vh = Some i"
      and o: "vote (?vh ! i) = opposite d"
    by (auto simp: getUserVote_def find_findIndex split: option.splits)
  from findIndex_Some[OF i] have il: "i < length ?vh" and ui: "user (?vh ! i) = v"
    by simp_all
  let ?e = "(?vh ! i)\<lparr>vote := d, createdAt := t\<rparr>"
  from o have ne: "vote (?vh ! i) \<noteq> d"
    by (cases d) (simp_all add: opposite_def)
  have vm: "vote_method this v d t =
      this\<lparr>votes := votes this + (if d = Up then 2 else - 2), voteHistory := ?vh[i := ?e]\<rparr>"
    using i ne by (simp add: vote_method_def Let_def)
  have a: "votes (vote_method this v d t) = votes this + 2 * direction d"
    by (simp add: vm direction_def)
  have b: "getUserVote (vote_method this v d t) v = Some d"
    using find_update_first[OF i, of ?e] ui by (simp add: vm getUserVote_def)
  have c: "map user (voteHistory (vote_method this v d t)) = map user ?vh"
    using il by (simp add: vm map_update list_update_same_conv)
  have d: "getUserVote (vote_method this v d t) u = getUserVote this u" if "u \<noteq> v" for u
  proof -
    have "find (\<lambda>x. user x = u) (?vh[i := ?e]) = find (\<lambda>x. user x = u) ?vh"
      using il ui that by (intro find_update_other) auto
    then show ?thesis by (simp add: vm getUserVote_def)
  qed
  from a b c d show ?thesis by blast
qed

theorem change_vote_witness:
  "getUserVote \<lparr>votes = 1, isDeleted = False,
       voteHistory = [\<lparr>user = ''u2'', vote = Up, createdAt = 0\<rparr>]\<rparr> ''u2''
     = Some (opposite Down)
   \<and> votes (vote_method \<lparr>votes = 1, isDeleted = False,
       voteHistory = [\<lparr>user = ''u2'', vote = Up, createdAt = 0\<rparr>]\<rparr> ''u2'' Down 5) = - 1
   \<and> getUserVote (vote_method \<lparr>votes = 1, isDeleted = False,
       voteHistory = [\<lparr>user = ''u2'', vote = Up, createdAt = 0\<rparr>]\<rparr> ''u2'' Down 5) ''u2''
     = Some Down"
  using change_vote [of "\<lparr>votes = 1, isDeleted = False,
       voteHistory = [\<lparr>user = ''u2'', vote = Up, createdAt = 0\<rparr>]\<rparr>" "''u2''" Down 5]
  by (simp add: getUserVote_def opposite_def direction_def)

text \<open>
  C8. From a document with score 0 and an empty ledger, for two different voters \<open>u1\<close>
  and \<open>u2\<close>: \<open>u1\<close> up gives score 1, then \<open>u2\<close> down gives 0, then \<open>u1\<close> down gives -2,
  then \<open>u1\<close> down again gives -1, and the ledger is then the single entry of \<open>u2\<close>.
\<close>

theorem four_vote_scenario:
  assumes "u1 \<noteq> u2" and "votes this = 0" and "voteHistory this = []"
  shows "votes (cast_votes this [(u1, Up, t1)]) = 1
       \<and> votes (cast_votes this [(u1, Up, t1), (u2, Down, t2)]) = 0
       \<and> votes (cast_votes this [(u1, Up, t1), (u2, Down, t2), (u1, Down, t3)]) = - 2
       \<and> votes (cast_votes this
            [(u1, Up, t1), (u2, Down, t2), (u1, Down, t3), (u1, Down, t4)]) = - 1
       \<and> voteHistory (cast_votes this
            [(u1, Up, t1), (u2, Down, t2), (u1, Down, t3), (u1, Down, t4)])
           = [\<lparr>user = u2, vote = Down, createdAt = t2\<rparr>]"
  using assms by (simp add: cast_votes_def vote_method_def splice1_def)

theorem four_vote_scenario_witness:
  "''u2'' \<noteq> ''u3'' \<and> votes new_question = 0 \<and> voteHistory new_question = []
   \<and> votes (cast_votes new_question [(''u2'', Up, 1)]) = 1
   \<and> votes (cast_votes new_question [(''u2'', Up, 1), (''u3'', Down, 2)]) = 0
   \<and> votes (cast_votes new_question
        [(''u2'', Up, 1), (''u3'', Down, 2), (''u2'', Down, 3)]) = - 2
   \<and> votes (cast_votes new_question
        [(''u2'', Up, 1), (''u3'', Down, 2), (''u2'', Down, 3), (''u2'', Down, 4)]) = - 1
   \<and> voteHistory (cast_votes new_question
        [(''u2'', Up, 1), (''u3'', Down, 2), (''u2'', Down, 3), (''u2'', Down, 4)])
       = [\<lparr>user = ''u3'', vote = Down, createdAt = 2\<rparr>]"
  using four_vote_scenario [of "''u2''" "''u3''" new_question 1 2 3 4]
  by (simp add: new_question_def)

section \<open>The vote handlers\<close>

lemma swallow_accepted_answers:
  "answers (swallow (notifyAnswerAccepted s a b c d f)) = answers s"
  by (simp add: swallow_def notifyAnswerAccepted_def createNotification_def)

lemma swallow_accepted_questions:
  "questions (swallow (notifyAnswerAccepted s a b c d f)) = questions s"
  by (simp add: swallow_def notifyAnswerAccepted_def createNotification_def)

lemma swallow_vote_answers:
  "answers (swallow (notifyVoteReceived s a t b c d e f)) = answers s"
  by (simp add: swallow_def notifyVoteReceived_def createNotification_def)

lemma swallow_vote_questions:
  "questions (swallow (notifyVoteReceived s a t b c d e f)) = questions s"
  by (simp add: swallow_def notifyVoteReceived_def createNotification_def)

lemmas swallow_simps = swallow_accepted_answers swallow_accepted_questions
  swallow_vote_answers swallow_vote_questions

lemma modified_same: "modified x y x = y"
  by (simp add: modified_def)

lemma vote_method_isDeleted: "isDeleted (vote_method this w d t) = isDeleted this"
  by (simp add: vote_method_def Let_def split: option.split)

lemma vote_method_shape:
  "this\<lparr>votes := votes (vote_method this w d t), isDeleted := isDeleted this,
        voteHistory := voteHistory (vote_method this w d t)\<rparr> = vote_method this w d t"
  by (simp add: vote_method_def Let_def split: option.split)

text \<open>
  A vote request that passes the checks stores the document the vote method returns,
  and answers with its score.
\<close>

lemma vote_answer_route_stores:
  assumes "parse_vote v = Some d" "answers s i = Some a" "\<not> isDeleted a"
    "answeredBy a \<noteq> user_id u"
  shows "answers (snd (vote_answer_route s u i v now fails))
           = (answers s)(i \<mapsto> vote_method a (user_id u) d now)"
    and "questions (snd (vote_answer_route s u i v now fails)) = questions s"
    and "fst (vote_answer_route s u i v now fails)
           = Response 200 ''Vote recorded successfully''
               (VotesPayload (votes (vote_method a (user_id u) d now)))"
proof -
  have e: "a\<lparr>votes := votes (vote_method a (user_id u) d now), isDeleted := False,
          voteHistory := voteHistory (vote_method a (user_id u) d now)\<rparr>
        = vote_method a (user_id u) d now"
    using vote_method_shape[of a "user_id u" d now] assms(3) by simp
  show "answers (snd (vote_answer_route s u i v now fails))
           = (answers s)(i \<mapsto> vote_method a (user_id u) d now)"
    using assms
    by (simp add: vote_answer_route_def answer_vote_def save_answer_def Let_def swallow_simps
        modified_same vote_method_isDeleted e)
  show "questions (snd (vote_answer_route s u i v now fails)) = questions s"
    using assms
    by (simp add: vote_answer_route_def answer_vote_def save_answer_def Let_def swallow_simps)
  show "fst (vote_answer_route s u i v now fails)
           = Response 200 ''Vote recorded successfully''
               (VotesPayload (votes (vote_method a (user_id u) d now)))"
    using assms
    by (simp add: vote_answer_route_def answer_vote_def Let_def)
qed

lemma vote_question_route_stores:
  assumes "parse_vote v = Some d" "questions s i = Some q" "\<not> isDeleted q"
    "askedBy q \<noteq> user_id u"
  shows "questions (snd (vote_question_route s u i v now fails))
           = (questions s)(i \<mapsto> vote_method q (user_id u) d now)"
    and "answers (snd (vote_question_route s u i v now fails)) = answers s"
    and "fst (vote_question_route s u i v now fails)
           = Response 200 ''Vote recorded successfully''
               (VotesPayload (votes (vote_method q (user_id u) d now)))"
proof -
  have e: "q\<lparr>votes := votes (vote_method q (user_id u) d now), isDeleted := False,
          voteHistory := voteHistory (vote_method q (user_id u) d now)\<rparr>
        = vote_method q (user_id u) d now"
    using vote_method_shape[of q "user_id u" d now] assms(3) by simp
  show "questions (snd (vote_question_route s u i v now fails))
           = (questions s)(i \<mapsto> vote_method q (user_id u) d now)"
    using assms
    by (simp add: vote_question_route_def question_vote_def save_question_def Let_def
        swallow_simps modified_same vote_method_isDeleted e)
  show "answers (snd (vote_question_route s u i v now fails)) = answers s"
    using assms
    by (simp add: vote_question_route_def question_vote_def save_question_def Let_def
        swallow_simps)
  show "fst (vote_question_route s u i v now fails)
           = Response 200 ''Vote recorded successfully''
               (VotesPayload (votes (vote_method q (user_id u) d now)))"
    using assms
    by (simp add: vote_question_route_def question_vote_def Let_def)
qed

text \<open>
  C6. A vote request sent by the author of the answer or question it names never changes
  the state, so the item's score and ledger stay as they were. When the direction is
  well-formed and the item is found (stored and not soft-deleted) the response is 400
  with the message "Cannot vote on your own answer" (or "question"), the InvalidOperation
  of the specification. (A malformed direction is rejected first, with 400
  "Validation failed", and a soft-deleted item with 404.)
\<close>

theorem self_vote_rejected:
  "(answers s i = Some ans \<and> answeredBy ans = user_id u \<longrightarrow>
      snd (vote_answer_route s u i v now fails) = s
      \<and> (parse_vote v \<noteq> None \<and> \<not> isDeleted ans \<longrightarrow>
           fst (vote_answer_route s u i v now fails) =
             Response 400 ''Cannot vote on your own answer'' NoPayload))
   \<and> (questions s i = Some q \<and> askedBy q = user_id u \<longrightarrow>
      snd (vote_question_route s u i v now fails) = s
      \<and> (parse_vote v \<noteq> None \<and> \<not> isDeleted q \<longrightarrow>
           fst (vote_question_route s u i v now fails) =
             Response 400 ''Cannot vote on your own question'' NoPayload))"
  by (auto simp: vote_answer_route_def vote_question_route_def split: option.splits)

theorem self_vote_rejected_witness:
  "answers initial_state ''a1'' = Some (new_answer ''u2'')
   \<and> answeredBy (new_answer ''u2'') = user_id bob
   \<and> parse_vote ''up'' \<noteq> None \<and> \<not> isDeleted (new_answer ''u2'')
   \<and> vote_answer_route initial_state bob ''a1'' ''up'' 7 False =
        (Response 400 ''Cannot vote on your own answer'' NoPayload, initial_state)
   \<and> questions initial_state ''q1'' = Some new_question
   \<and> askedBy new_question = user_id alice
   \<and> \<not> isDeleted new_question
   \<and> vote_question_route initial_state alice ''q1'' ''up'' 7 False =
        (Response 400 ''Cannot vote on your own question'' NoPayload, initial_state)"
  using self_vote_rejected [where v = "''up''" and s = initial_state and i = "''a1''"
      and ans = "new_answer ''u2''" and u = bob and now = 7 and fails = False]
    self_vote_rejected [where v = "''up''" and s = initial_state and i = "''q1''"
      and q = new_question and u = alice and now = 7 and fails = False]
  by (simp add: parse_vote_def initial_state_def new_answer_def new_question_def
      bob_def alice_def prod_eq_iff)

section \<open>Notification failures\<close>

lemma accept_route_two_runs:
  "fst (accept_route s u i True) = fst (accept_route s u i False)
   \<and> answers (snd (accept_route s u i True)) = answers (snd (accept_route s u i False))
   \<and> questions (snd (accept_route s u i True)) = questions (snd (accept_route s u i False))"
  by (simp add: accept_route_def Let_def swallow_simps split: option.split prod.split)

lemma vote_answer_route_two_runs:
  "fst (vote_answer_route s u i v now True) = fst (vote_answer_route s u i v now False)
   \<and> answers (snd (vote_answer_route s u i v now True))
       = answers (snd (vote_answer_route s u i v now False))
   \<and> questions (snd (vote_answer_route s u i v now True))
       = questions (snd (vote_answer_route s u i v now False))"
  by (simp add: vote_answer_route_def Let_def swallow_simps split: option.split prod.split)

lemma vote_question_route_two_runs:
  "fst (vote_question_route s u i v now True) = fst (vote_question_route s u i v now False)
   \<and> answers (snd (vote_question_route s u i v now True))
       = answers (snd (vote_question_route s u i v now False))
   \<and> questions (snd (vote_question_route s u i v now True))
       = questions (snd (vote_question_route s u i v now False))"
  by (simp add: vote_question_route_def Let_def swallow_simps split: option.split prod.split)

text \<open>
  C9. For the accept handler and both vote handlers, on every state and request: the run in
  which the notification call rejects and the run in which it succeeds send the same
  response and leave the same answers and the same questions. (They differ in the
  notifications collection and in the error log only.)
\<close>

theorem notification_outcome_irrelevant:
  "fst (accept_route s u i True) = fst (accept_route s u i False)
   \<and> answers (snd (accept_route s u i True)) = answers (snd (accept_route s u i False))
   \<and> questions (snd (accept_route s u i True)) = questions (snd (accept_route s u i False))
   \<and> fst (vote_answer_route s u i v now True) = fst (vote_answer_route s u i v now False)
   \<and> answers (snd (vote_answer_route s u i v now True))
       = answers (snd (vote_answer_route s u i v now False))
   \<and> questions (snd (vote_answer_route s u i v now True))
       = questions (snd (vote_answer_route s u i v now False))
   \<and> fst (vote_question_route s u i v now True) = fst (vote_question_route s u i v now False)
   \<and> answers (snd (vote_question_route s u i v now True))
       = answers (snd (vote_question_route s u i v now False))
   \<and> questions (snd (vote_question_route s u i v now True))
       = questions (snd (vote_question_route s u i v now False))"
  using accept_route_two_runs [of s u i] vote_answer_route_two_runs [of s u i v now]
    vote_question_route_two_runs [of s u i v now]
  by blast

theorem notification_outcome_irrelevant_witness:
  "fst (accept_route initial_state alice ''a1'' True)
     = fst (accept_route initial_state alice ''a1'' False)
   \<and> fst (accept_route initial_state alice ''a1'' True)
     = Response 200 ''Answer accepted successfully''
         (AnswerPayload ((new_answer ''u2'')\<lparr>isAccepted := True\<rparr>))
   \<and> map_option isAccepted (answers (snd (accept_route initial_state alice ''a1'' True)) ''a1'')
     = Some True
   \<and> fst (vote_question_route initial_state bob ''q1'' ''up'' 7 True)
     = Response 200 ''Vote recorded successfully'' (VotesPayload 1)
   \<and> fst (vote_question_route initial_state bob ''q1'' ''up'' 7 False)
     = Response 200 ''Vote recorded successfully'' (VotesPayload 1)"
  using notification_outcome_irrelevant [of initial_state alice "''a1''" "''up''" 7]
    notification_outcome_irrelevant [of initial_state bob "''q1''" "''up''" 7]
  by (simp add: initial_state_def alice_def bob_def new_answer_def new_question_def
      accept_route_def accept_def save_answer_def save_question_def modified_def Let_def
      swallow_def notifyAnswerAccepted_def createNotification_def notifyVoteReceived_def
      vote_question_route_def question_vote_def parse_vote_def vote_method_def)

section \<open>Accepting and unaccepting\<close>

text \<open>
  C3. Take an accept request for a stored answer \<open>b\<close> whose question is stored. If the
  requester is not the question's author the state is unchanged, and the response is 403
  "Only the question owner can accept answers" (the Forbidden of the specification)
  when answer and question are found, that is, not soft-deleted (404 otherwise). If the
  requester is the author, both are found, and the question points to a different stored
  answer \<open>a\<close>, the response is 200 and afterwards \<open>a\<close> has \<open>isAccepted = false\<close>,
  \<open>b\<close> has \<open>isAccepted = true\<close> and the question's \<open>acceptedAnswer\<close> is \<open>b\<close>.
\<close>

theorem accept_answer:
  assumes "answers s b = Some ansB" and "questions s (questionId ansB) = Some q"
  shows "(askedBy q \<noteq> user_id u \<longrightarrow>
            snd (accept_route s u b fails) = s
          \<and> (\<not> isDeleted ansB \<and> \<not> isDeleted q \<longrightarrow>
               fst (accept_route s u b fails) =
                 Response 403 ''Only the question owner can accept answers'' NoPayload))
       \<and> (askedBy q = user_id u \<and> \<not> isDeleted ansB \<and> \<not> isDeleted q
            \<and> acceptedAnswer q = Some a \<and> a \<noteq> b \<and> answers s a = Some ansA \<longrightarrow>
            fst (accept_route s u b fails) =
              Response 200 ''Answer accepted successfully''
                (AnswerPayload (ansB\<lparr>isAccepted := True\<rparr>))
          \<and> map_option isAccepted (answers (snd (accept_route s u b fails)) a) = Some False
          \<and> map_option isAccepted (answers (snd (accept_route s u b fails)) b) = Some True
          \<and> map_option acceptedAnswer
               (questions (snd (accept_route s u b fails)) (questionId ansB)) = Some (Some b))"
  using assms
  by (simp add: accept_route_def accept_def unaccept_def save_answer_def save_question_def
      modified_def Let_def swallow_simps)

theorem accept_answer_witness:
  "answers accepted_state ''b1'' = Some (new_answer ''u3'')
   \<and> questions accepted_state (questionId (new_answer ''u3''))
       = Some (new_question\<lparr>acceptedAnswer := Some ''a1''\<rparr>)
   \<and> \<not> isDeleted (new_answer ''u3'')
   \<and> \<not> isDeleted (new_question\<lparr>acceptedAnswer := Some ''a1''\<rparr>)
   \<and> askedBy (new_question\<lparr>acceptedAnswer := Some ''a1''\<rparr>) \<noteq> user_id carol
   \<and> accept_route accepted_state carol ''b1'' False =
        (Response 403 ''Only the question owner can accept answers'' NoPayload, accepted_state)
   \<and> askedBy (new_question\<lparr>acceptedAnswer := Some ''a1''\<rparr>) = user_id alice
   \<and> ''a1'' \<noteq> ''b1''
   \<and> answers accepted_state ''a1'' = Some ((new_answer ''u2'')\<lparr>isAccepted := True\<rparr>)
   \<and> map_option isAccepted (answers (snd (accept_route accepted_state alice ''b1'' False)) ''a1'')
       = Some False
   \<and> map_option isAccepted (answers (snd (accept_route accepted_state alice ''b1'' False)) ''b1'')
       = Some True
   \<and> map_option acceptedAnswer
        (questions (snd (accept_route accepted_state alice ''b1'' False)) ''q1'')
       = Some (Some ''b1'')"
  using accept_answer [where s = accepted_state and b = "''b1''" and ansB = "new_answer ''u3''"
      and q = "new_question\<lparr>acceptedAnswer := Some ''a1''\<rparr>" and u = carol and fails = False]
    accept_answer [where s = accepted_state and b = "''b1''" and ansB = "new_answer ''u3''"
      and q = "new_question\<lparr>acceptedAnswer := Some ''a1''\<rparr>" and u = alice and fails = False
      and a = "''a1''" and ansA = "(new_answer ''u2'')\<lparr>isAccepted := True\<rparr>"]
  by (simp add: accepted_state_def new_answer_def new_question_def alice_def carol_def
      prod_eq_iff)

text \<open>
  C7. An unaccept request for a stored answer whose \<open>isAccepted\<close> flag is false never
  changes the state: neither the flag nor the question's pointer. When the answer and its
  question are found and the requester is the question's author, the response is 400
  "This answer is not currently accepted", the InvalidOperation of the specification.
\<close>

theorem unaccept_not_accepted:
  assumes "answers s i = Some ans" and "\<not> isAccepted ans"
  shows "snd (unaccept_route s u i) = s
       \<and> (\<not> isDeleted ans \<and> questions s (questionId ans) = Some q \<and> \<not> isDeleted q
            \<and> askedBy q = user_id u \<longrightarrow>
            fst (unaccept_route s u i) =
              Response 400 ''This answer is not currently accepted'' NoPayload)"
  using assms by (auto simp: unaccept_route_def split: option.splits)

theorem unaccept_not_accepted_witness:
  "answers accepted_state ''b1'' = Some (new_answer ''u3'')
   \<and> \<not> isAccepted (new_answer ''u3'')
   \<and> \<not> isDeleted (new_answer ''u3'')
   \<and> questions accepted_state (questionId (new_answer ''u3''))
       = Some (new_question\<lparr>acceptedAnswer := Some ''a1''\<rparr>)
   \<and> \<not> isDeleted (new_question\<lparr>acceptedAnswer := Some ''a1''\<rparr>)
   \<and> askedBy (new_question\<lparr>acceptedAnswer := Some ''a1''\<rparr>) = user_id alice
   \<and> unaccept_route accepted_state alice ''b1'' =
        (Response 400 ''This answer is not currently accepted'' NoPayload, accepted_state)"
  using unaccept_not_accepted [of accepted_state "''b1''" "new_answer ''u3''" alice
      "new_question\<lparr>acceptedAnswer := Some ''a1''\<rparr>"]
  by (simp add: accepted_state_def new_answer_def new_question_def alice_def prod_eq_iff)

text \<open>
  The guard of the delete handler reads the answer's own flag. A delete request for a
  stored answer whose \<open>isAccepted\<close> flag is true never changes the state (so
  \<open>isDeleted\<close> is not set), and its response is one of the three errors of the handler:
  404, 403, or 400 "Cannot delete an accepted answer"; it is the last one whenever the
  answer is not already soft-deleted and the requester is its author or an admin.
\<close>

theorem delete_accepted_answer_rejected:
  assumes "answers s i = Some ans" and "isAccepted ans"
  shows "snd (delete_answer_route s u i) = s
       \<and> fst (delete_answer_route s u i) \<in>
           {Response 404 ''Answer not found'' NoPayload,
            Response 403 ''Not authorized to delete this answer'' NoPayload,
            Response 400 ''Cannot delete an accepted answer'' NoPayload}
       \<and> (\<not> isDeleted ans \<and> (answeredBy ans = user_id u \<or> role u = ''admin'') \<longrightarrow>
            fst (delete_answer_route s u i) =
              Response 400 ''Cannot delete an accepted answer'' NoPayload)"
  using assms by (auto simp: delete_answer_route_def)

theorem delete_accepted_answer_rejected_example:
  "answers accepted_state ''a1'' = Some ((new_answer ''u2'')\<lparr>isAccepted := True\<rparr>)
   \<and> isAccepted ((new_answer ''u2'')\<lparr>isAccepted := True\<rparr>)
   \<and> \<not> isDeleted ((new_answer ''u2'')\<lparr>isAccepted := True\<rparr>)
   \<and> answeredBy ((new_answer ''u2'')\<lparr>isAccepted := True\<rparr>) = user_id bob
   \<and> delete_answer_route accepted_state bob ''a1'' =
        (Response 400 ''Cannot delete an accepted answer'' NoPayload, accepted_state)"
  using delete_accepted_answer_rejected [of accepted_state "''a1''"
      "(new_answer ''u2'')\<lparr>isAccepted := True\<rparr>" bob]
  by (simp add: accepted_state_def new_answer_def bob_def prod_eq_iff)

section \<open>The single-accepted-answer invariant\<close>

text \<open>What the two handlers write when a request passes their checks, and that they write
  nothing otherwise.\<close>

lemma accept_route_answers:
  assumes "answers s i = Some ans" "\<not> isDeleted ans"
    and "questions s (questionId ans) = Some q" "\<not> isDeleted q" "askedBy q = user_id u"
  shows "answers (snd (accept_route s u i fails)) = accepted_answers s i ans q"
  using assms
  by (cases "acceptedAnswer q")
     (auto simp: accept_route_def accepted_answers_def accept_def unaccept_def save_answer_def
       save_question_def modified_def Let_def swallow_simps split: option.splits)

lemma accept_route_questions:
  assumes "answers s i = Some ans" "\<not> isDeleted ans"
    and "questions s (questionId ans) = Some q" "\<not> isDeleted q" "askedBy q = user_id u"
  shows "questions (snd (accept_route s u i fails)) =
           (questions s)(questionId ans \<mapsto> q\<lparr>acceptedAnswer := Some i\<rparr>)"
  using assms
  by (cases "acceptedAnswer q")
     (auto simp: accept_route_def accept_def unaccept_def save_answer_def
       save_question_def modified_def Let_def swallow_simps split: option.splits)

lemma accept_route_rejected:
  assumes "\<not> (\<exists>ans q. answers s i = Some ans \<and> \<not> isDeleted ans
      \<and> questions s (questionId ans) = Some q \<and> \<not> isDeleted q \<and> askedBy q = user_id u)"
  shows "snd (accept_route s u i fails) = s"
  using assms by (auto simp: accept_route_def split: option.splits)

lemma unaccept_route_effect:
  assumes "answers s i = Some ans" "\<not> isDeleted ans"
    and "questions s (questionId ans) = Some q" "\<not> isDeleted q" "askedBy q = user_id u"
    and "isAccepted ans"
  shows "answers (snd (unaccept_route s u i)) = (answers s)(i \<mapsto> ans\<lparr>isAccepted := False\<rparr>)"
    and "questions (snd (unaccept_route s u i)) =
           (questions s)(questionId ans \<mapsto> q\<lparr>acceptedAnswer := None\<rparr>)"
  using assms
  by (auto simp: unaccept_route_def unaccept_def save_answer_def
       save_question_def modified_def Let_def split: option.splits)

lemma unaccept_route_rejected:
  assumes "\<not> (\<exists>ans q. answers s i = Some ans \<and> \<not> isDeleted ans
      \<and> questions s (questionId ans) = Some q \<and> \<not> isDeleted q \<and> askedBy q = user_id u
      \<and> isAccepted ans)"
  shows "snd (unaccept_route s u i) = s"
  using assms by (auto simp: unaccept_route_def split: option.splits)

lemma flag_has_pointerE:
  "flag_has_pointer s \<Longrightarrow> answers s i = Some a \<Longrightarrow> isAccepted a \<Longrightarrow>
     \<exists>q. questions s (questionId a) = Some q \<and> acceptedAnswer q = Some i"
  unfolding flag_has_pointer_def by blast

lemma flag_has_pointerD:
  "flag_has_pointer s \<Longrightarrow> answers s i = Some a \<Longrightarrow> isAccepted a \<Longrightarrow>
     questions s (questionId a) = Some q \<Longrightarrow> acceptedAnswer q = Some i"
  using flag_has_pointerE by fastforce

lemma pointer_has_flagE:
  "pointer_has_flag s \<Longrightarrow> questions s qi = Some q \<Longrightarrow> acceptedAnswer q = Some i \<Longrightarrow>
     \<exists>a. answers s i = Some a \<and> questionId a = qi \<and> isAccepted a"
  unfolding pointer_has_flag_def by blast

lemma at_most_one_accepted:
  assumes "flag_has_pointer s"
    and "answers s i = Some a" "isAccepted a"
    and "answers s j = Some b" "isAccepted b"
    and "questionId a = questionId b"
  shows "i = j"
proof -
  from flag_has_pointerE[OF assms(1,2,3)] obtain q
    where q: "questions s (questionId a) = Some q" "acceptedAnswer q = Some i" by blast
  from q(1) assms(6) have "questions s (questionId b) = Some q" by simp
  from flag_has_pointerD[OF assms(1,4,5) this] q(2) show ?thesis by simp
qed

lemma flag_has_pointer_accept:
  assumes "flag_has_pointer s"
  shows "flag_has_pointer (snd (accept_route s u i fails))"
proof (cases "\<exists>ans q. answers s i = Some ans \<and> \<not> isDeleted ans
      \<and> questions s (questionId ans) = Some q \<and> \<not> isDeleted q \<and> askedBy q = user_id u")
  case False
  then have "snd (accept_route s u i fails) = s" by (rule accept_route_rejected)
  with assms show ?thesis by simp
next
  case True
  then obtain ans q where h: "answers s i = Some ans" "\<not> isDeleted ans"
      "questions s (questionId ans) = Some q" "\<not> isDeleted q" "askedBy q = user_id u"
    by blast
  note A = accept_route_answers[OF h, of fails]
  note Q = accept_route_questions[OF h, of fails]
  show ?thesis
    unfolding flag_has_pointer_def A Q
    using assms h
    by (auto simp: accepted_answers_def flag_has_pointerE split: option.splits if_splits
          dest: flag_has_pointerD)
qed

lemma flag_has_pointer_unaccept:
  assumes "flag_has_pointer s"
  shows "flag_has_pointer (snd (unaccept_route s u i))"
proof (cases "\<exists>ans q. answers s i = Some ans \<and> \<not> isDeleted ans
      \<and> questions s (questionId ans) = Some q \<and> \<not> isDeleted q \<and> askedBy q = user_id u
      \<and> isAccepted ans")
  case False
  then have "snd (unaccept_route s u i) = s" by (rule unaccept_route_rejected)
  with assms show ?thesis by simp
next
  case True
  then obtain ans q where h: "answers s i = Some ans" "\<not> isDeleted ans"
      "questions s (questionId ans) = Some q" "\<not> isDeleted q" "askedBy q = user_id u"
      "isAccepted ans"
    by blast
  note A = unaccept_route_effect(1)[OF h]
  note Q = unaccept_route_effect(2)[OF h]
  show ?thesis
    unfolding flag_has_pointer_def A Q
    using assms h
    by (auto simp: flag_has_pointerE split: option.splits if_splits
          dest: flag_has_pointerD)
       (metis flag_has_pointerD option.inject)
qed

lemma flag_has_pointer_step: "flag_has_pointer s \<Longrightarrow> flag_has_pointer (acceptance_step s x)"
  by (cases x) (simp_all add: flag_has_pointer_accept flag_has_pointer_unaccept)

lemma flag_has_pointer_run: "flag_has_pointer s \<Longrightarrow> flag_has_pointer (acceptance_run s ops)"
  unfolding acceptance_run_def
  by (induction ops arbitrary: s) (simp_all add: flag_has_pointer_step)

lemma pointer_has_flag_unaccept:
  assumes "flag_has_pointer s" "pointer_has_flag s"
  shows "pointer_has_flag (snd (unaccept_route s u i))"
proof (cases "\<exists>ans q. answers s i = Some ans \<and> \<not> isDeleted ans
      \<and> questions s (questionId ans) = Some q \<and> \<not> isDeleted q \<and> askedBy q = user_id u
      \<and> isAccepted ans")
  case False
  then have "snd (unaccept_route s u i) = s" by (rule unaccept_route_rejected)
  with assms show ?thesis by simp
next
  case True
  then obtain ans q where h: "answers s i = Some ans" "\<not> isDeleted ans"
      "questions s (questionId ans) = Some q" "\<not> isDeleted q" "askedBy q = user_id u"
      "isAccepted ans"
    by blast
  note A = unaccept_route_effect(1)[OF h]
  note Q = unaccept_route_effect(2)[OF h]
  show ?thesis
    unfolding pointer_has_flag_def A Q
    using assms h
    by (auto split: option.splits if_splits
          dest: flag_has_pointerD pointer_has_flagE)
qed

lemma pointer_has_flag_accept:
  assumes "flag_has_pointer s" "pointer_has_flag s"
    and "\<And>ans q. answers s i = Some ans \<Longrightarrow> questions s (questionId ans) = Some q \<Longrightarrow>
           acceptedAnswer q \<noteq> Some i"
  shows "pointer_has_flag (snd (accept_route s u i fails))"
proof (cases "\<exists>ans q. answers s i = Some ans \<and> \<not> isDeleted ans
      \<and> questions s (questionId ans) = Some q \<and> \<not> isDeleted q \<and> askedBy q = user_id u")
  case False
  then have "snd (accept_route s u i fails) = s" by (rule accept_route_rejected)
  with assms show ?thesis by simp
next
  case True
  then obtain ans q where h: "answers s i = Some ans" "\<not> isDeleted ans"
      "questions s (questionId ans) = Some q" "\<not> isDeleted q" "askedBy q = user_id u"
    by blast
  note A = accept_route_answers[OF h, of fails]
  note Q = accept_route_questions[OF h, of fails]
  from assms(3) h have n: "acceptedAnswer q \<noteq> Some i" by blast
  show ?thesis
    unfolding pointer_has_flag_def A Q
    using assms(1,2) h n
    by (auto simp: accepted_answers_def split: option.splits if_splits
          dest: flag_has_pointerD pointer_has_flagE)
       (metis pointer_has_flagE option.inject)
qed

text \<open>
  So after every sequence of accept and unaccept requests from a state in which flagged
  answers are pointed to, a question never has two answers with \<open>isAccepted = true\<close>
  (\<open>flag_has_pointer_run\<close> with \<open>at_most_one_accepted\<close>). The other half,
  \<open>pointer_has_flag\<close>, is kept by every unaccept request and by every accept request
  whose target is not the answer its question already points to.
\<close>

lemma initial_state_invariants: "flag_has_pointer initial_state \<and> pointer_has_flag initial_state"
  by (simp add: flag_has_pointer_def pointer_has_flag_def initial_state_def new_answer_def
      new_question_def)

text \<open>
  C1. The invariant fails when the accepted answer is accepted again. Start with question
  \<open>q1\<close> of \<open>u1\<close> without an accepted answer, and its answer \<open>a1\<close>. After the first
  accept request of \<open>u1\<close> for \<open>a1\<close> the flag of \<open>a1\<close> is true and \<open>q1\<close> points to
  \<open>a1\<close>. The second accept request for \<open>a1\<close> loads \<open>a1\<close>, then loads it again as the
  previously accepted answer and saves that copy with the flag cleared; the first copy
  already has \<open>isAccepted = true\<close>, so \<open>answer.accept()\<close> changes no path and its
  \<open>save()\<close> writes nothing. The response is 200 and shows \<open>isAccepted = true\<close>, but
  the stored answer has \<open>isAccepted = false\<close> while \<open>q1\<close> still points to \<open>a1\<close>:
  the pointer is set and no answer of the question is accepted.
\<close>

theorem reaccept_clears_flag:
  "map_option isAccepted
     (answers (acceptance_run initial_state [Accept alice ''a1'' False]) ''a1'') = Some True
   \<and> map_option acceptedAnswer
     (questions (acceptance_run initial_state [Accept alice ''a1'' False]) ''q1'')
       = Some (Some ''a1'')
   \<and> fst (accept_route (acceptance_run initial_state [Accept alice ''a1'' False])
            alice ''a1'' False)
       = Response 200 ''Answer accepted successfully''
           (AnswerPayload ((new_answer ''u2'')\<lparr>isAccepted := True\<rparr>))
   \<and> map_option isAccepted
     (answers (acceptance_run initial_state
        [Accept alice ''a1'' False, Accept alice ''a1'' False]) ''a1'') = Some False
   \<and> map_option acceptedAnswer
     (questions (acceptance_run initial_state
        [Accept alice ''a1'' False, Accept alice ''a1'' False]) ''q1'') = Some (Some ''a1'')"
  by (simp add: acceptance_run_def initial_state_def alice_def new_answer_def new_question_def
      accept_route_def accept_def unaccept_def save_answer_def save_question_def modified_def
      Let_def swallow_def notifyAnswerAccepted_def createNotification_def)

text \<open>
  C10. The accepted answer of a question is meant to be safe from the delete handler, so
  that the question's pointer never refers to a soft-deleted answer. The guard above does
  that for every answer whose stored flag is true, but it fails in the state the repeated
  accept leaves behind: \<open>q1\<close> points to \<open>a1\<close>, the stored flag of \<open>a1\<close> is false, and
  the delete request of the answer's author \<open>u2\<close> gets 200 "Answer deleted
  successfully". Afterwards \<open>a1\<close> has \<open>isDeleted = true\<close> and \<open>q1\<close> still points to it.
\<close>

theorem reaccept_then_delete:
  "fst (delete_answer_route
     (acceptance_run initial_state [Accept alice ''a1'' False, Accept alice ''a1'' False])
     bob ''a1'') = Response 200 ''Answer deleted successfully'' NoPayload
   \<and> map_option isDeleted (answers (snd (delete_answer_route
     (acceptance_run initial_state [Accept alice ''a1'' False, Accept alice ''a1'' False])
     bob ''a1'')) ''a1'') = Some True
   \<and> map_option acceptedAnswer (questions (snd (delete_answer_route
     (acceptance_run initial_state [Accept alice ''a1'' False, Accept alice ''a1'' False])
     bob ''a1'')) ''q1'') = Some (Some ''a1'')"
  by (simp add: acceptance_run_def initial_state_def alice_def bob_def new_answer_def
      new_question_def delete_answer_route_def
      accept_route_def accept_def unaccept_def save_answer_def save_question_def modified_def
      Let_def swallow_def notifyAnswerAccepted_def createNotification_def)

end
